theory Spec2Isabelle
  imports Main "HOL-Library.Word" "HOL-Library.Product_Lexorder" "HOL-Library.Multiset"
begin

unbundle bit_operations_syntax

section \<open>Data model of realtime_monitoring.py\<close>

text \<open>
  Timestamps (\<open>datetime\<close>) are seconds on the wall clock, as integers; a
  \<open>timedelta(minutes=c)\<close> is \<open>60 * c\<close>. Process values (\<open>value: Any\<close>) are
  integers. Python dictionaries keep insertion order, and several operations of the
  monitoring system iterate over them, so they are association lists: \<open>map_of\<close> looks a
  key up, \<open>dict_set\<close> stores (in place for a known key, at the end for a new one) and
  \<open>dict_del\<close> removes.
\<close>

type_synonym datetime = int

fun dict_set :: "'k \<Rightarrow> 'v \<Rightarrow> ('k \<times> 'v) list \<Rightarrow> ('k \<times> 'v) list" where
  "dict_set k v [] = [(k, v)]"
| "dict_set k v (p # ps) = (if fst p = k then (k, v) # ps else p # dict_set k v ps)"

definition dict_del :: "'k \<Rightarrow> ('k \<times> 'v) list \<Rightarrow> ('k \<times> 'v) list" where
  "dict_del k ps = filter (\<lambda>p. fst p \<noteq> k) ps"

record MonitoringData =
  point_id :: string
  timestamp :: datetime
  val :: int
  quality :: string
  status :: string

subsection \<open>DataBuffer\<close>

text \<open>
  \<open>DataBuffer.max_size\<close> is the capacity of each point's list, a natural number;
  \<open>buffer\<close> is the dictionary from point id to that point's list of samples.
\<close>

record DataBuffer =
  max_size :: nat
  buffer :: "(string \<times> MonitoringData list) list"

definition DataBuffer_init :: "nat \<Rightarrow> DataBuffer" where
  "DataBuffer_init n = \<lparr>max_size = n, buffer = []\<rparr>"

definition samples :: "DataBuffer \<Rightarrow> string \<Rightarrow> MonitoringData list" where
  "samples b pid = (case map_of (buffer b) pid of None \<Rightarrow> [] | Some xs \<Rightarrow> xs)"

text \<open>
  \<open>add_point\<close>: a point seen for the first time gets an empty list; the sample is
  appended; when the list is then longer than \<open>max_size\<close>, \<open>pop(0)\<close> drops its head.
\<close>

definition add_point :: "string \<Rightarrow> MonitoringData \<Rightarrow> DataBuffer \<Rightarrow> DataBuffer" where
  "add_point pid d b =
     (let xs = samples b pid @ [d];
          ys = (if length xs > max_size b then tl xs else xs)
      in b\<lparr>buffer := dict_set pid ys (buffer b)\<rparr>)"

definition get_latest :: "DataBuffer \<Rightarrow> string \<Rightarrow> MonitoringData option" where
  "get_latest b pid =
     (case map_of (buffer b) pid of
        None \<Rightarrow> None
      | Some xs \<Rightarrow> (if xs = [] then None else Some (last xs)))"

fun get_all_latest_from :: "DataBuffer \<Rightarrow> string list \<Rightarrow> (string \<times> MonitoringData) list" where
  "get_all_latest_from b [] = []"
| "get_all_latest_from b (pid # pids) =
     (case get_latest b pid of
        None \<Rightarrow> get_all_latest_from b pids
      | Some d \<Rightarrow> (pid, d) # get_all_latest_from b pids)"

definition get_all_latest :: "DataBuffer \<Rightarrow> (string \<times> MonitoringData) list" where
  "get_all_latest b = get_all_latest_from b (map fst (buffer b))"

text \<open>Inserting a sequence of samples for one point, one \<open>add_point\<close> each.\<close>

definition add_points :: "string \<Rightarrow> MonitoringData list \<Rightarrow> DataBuffer \<Rightarrow> DataBuffer" where
  "add_points pid ds b = fold (add_point pid) ds b"

text \<open>
  Several writers append to the buffer (the scan task of a point, the data pipeline);
  \<open>add_all\<close> is a sequence of \<open>add_point\<close> calls on any points, in the order they
  happen.
\<close>

definition add_all :: "(string \<times> MonitoringData) list \<Rightarrow> DataBuffer \<Rightarrow> DataBuffer" where
  "add_all evs b = fold (\<lambda>e. add_point (fst e) (snd e)) evs b"

text \<open>A sample of point T001 read at time \<open>t\<close> with value \<open>v\<close>.\<close>

definition sample_T001 :: "datetime \<Rightarrow> int \<Rightarrow> MonitoringData" where
  "sample_T001 t v =
     \<lparr>point_id = ''T001'', timestamp = t, val = v, quality = ''GOOD'', status = ''ONLINE''\<rparr>"

subsection \<open>Errors\<close>

text \<open>
  The exceptions the modelled code can meet: a \<open>TypeError\<close> (with the offending
  keyword), \<open>struct.error\<close>, a failure of the socket or serial port, whatever the
  evaluation of a rule condition or \<open>str.format\<close> raises, and the
  \<open>RuntimeError\<close> of asyncio.
\<close>

datatype py_error =
  TypeError string | StructError | IOError | EvalError | FormatError | RuntimeError

subsection \<open>The scan loop of a monitoring point\<close>

text \<open>
  \<open>MonitoringPoint\<close>: the thresholds and the deadband are stored and never read by
  the monitoring system, so the record keeps the fields the scanner uses.
\<close>

record MonitoringPoint =
  mp_point_id :: string
  mp_name :: string
  scan_rate_ms :: int
  mp_enabled :: bool

text \<open>
  One iteration of \<open>scan_loop\<close> in \<open>_start_point_scanner\<close>. The clock reading
  \<open>now\<close> and the outcome of \<open>_read_point_value\<close> (a value, or the exception it
  raised) are the inputs. A value becomes a sample of quality GOOD and status ONLINE,
  appended to the buffer; an exception is logged by the \<open>except\<close> branch, which
  sleeps and lets the \<open>while\<close> loop go on. The loop runs as long as it is not
  stopped: \<open>scan_loop\<close> takes the inputs of the iterations that ran.
\<close>

definition scan_iteration ::
  "MonitoringPoint \<Rightarrow> datetime \<times> (py_error + int) \<Rightarrow> DataBuffer \<Rightarrow> DataBuffer" where
  "scan_iteration point inp b =
     (case snd inp of
        Inl e \<Rightarrow> b
      | Inr v \<Rightarrow>
          add_point (mp_point_id point)
            \<lparr>point_id = mp_point_id point, timestamp = fst inp, val = v,
             quality = ''GOOD'', status = ''ONLINE''\<rparr> b)"


subsection \<open>The writers of the buffer\<close>

text \<open>
  The data pipeline writes to the same buffer. \<open>protocol_to_monitoring\<close>
  (data_pipeline.py) turns the payload of a packet, a dictionary, into the monitoring
  format: the point id is the payload's \<open>device_id\<close> (\<open>unknown\<close> when absent), the
  timestamp is \<open>datetime.now()\<close>, and value, quality and status are the payload's, with
  the defaults 0, GOOD and ONLINE. \<open>_send_to_monitoring_system\<close> builds the
  \<open>MonitoringData\<close> from it and calls \<open>add_point\<close>. The payload keeps the four
  keys that are read.
\<close>

record Payload =
  device_id :: "string option"
  payload_value :: "int option"
  payload_quality :: "string option"
  payload_status :: "string option"

definition protocol_to_monitoring :: "datetime \<Rightarrow> Payload \<Rightarrow> MonitoringData" where
  "protocol_to_monitoring now p =
     \<lparr>point_id = (case device_id p of None \<Rightarrow> ''unknown'' | Some d \<Rightarrow> d),
      timestamp = now,
      val = (case payload_value p of None \<Rightarrow> 0 | Some v \<Rightarrow> v),
      quality = (case payload_quality p of None \<Rightarrow> ''GOOD'' | Some q \<Rightarrow> q),
      status = (case payload_status p of None \<Rightarrow> ''ONLINE'' | Some st \<Rightarrow> st)\<rparr>"

definition send_to_monitoring_system :: "datetime \<times> Payload \<Rightarrow> DataBuffer \<Rightarrow> DataBuffer" where
  "send_to_monitoring_system inp b =
     (let mon_data = protocol_to_monitoring (fst inp) (snd inp)
      in add_point (point_id mon_data) mon_data b)"

text \<open>
  The writers of the buffer are the scan tasks of the points and the pipeline. A run of
  the system is the list of their steps in the order in which they reach the buffer: an
  iteration of the scan task of a point, or a packet sent to the monitoring system, each
  with the clock reading it takes for its sample.
\<close>

datatype writer =
  Scan MonitoringPoint "datetime \<times> (py_error + int)"
  | Packet "datetime \<times> Payload"

fun writer_step :: "writer \<Rightarrow> DataBuffer \<Rightarrow> DataBuffer" where
  "writer_step (Scan point inp) b = scan_iteration point inp b"
| "writer_step (Packet inp) b = send_to_monitoring_system inp b"

definition run_writers :: "writer list \<Rightarrow> DataBuffer \<Rightarrow> DataBuffer" where
  "run_writers steps b = fold writer_step steps b"

text \<open>
  The point a step appends a sample to (none when the read of a scan iteration
  fails), the clock reading of a step, and the clock readings of the steps that append to
  a given point, in order.
\<close>

fun written_point :: "writer \<Rightarrow> string option" where
  "written_point (Scan point inp) = (case snd inp of Inl e \<Rightarrow> None | Inr v \<Rightarrow> Some (mp_point_id point))"
| "written_point (Packet inp) = Some (case device_id (snd inp) of None \<Rightarrow> ''unknown'' | Some d \<Rightarrow> d)"

fun clock_reading :: "writer \<Rightarrow> datetime" where
  "clock_reading (Scan point inp) = fst inp"
| "clock_reading (Packet inp) = fst inp"

definition stamps_of :: "string \<Rightarrow> writer list \<Rightarrow> datetime list" where
  "stamps_of pid steps = map clock_reading (filter (\<lambda>w. written_point w = Some pid) steps)"

subsection \<open>Alert rules and alerts\<close>

datatype AlertPriority = LOW | MEDIUM | HIGH | CRITICAL | EMERGENCY

fun priority_value :: "AlertPriority \<Rightarrow> int" where
  "priority_value LOW = 1"
| "priority_value MEDIUM = 2"
| "priority_value HIGH = 3"
| "priority_value CRITICAL = 4"
| "priority_value EMERGENCY = 5"

datatype AlertType =
  SYSTEM_FAULT | PROCESS_ALARM | SECURITY_BREACH | EQUIPMENT_FAILURE
  | QUALITY_DEVIATION | MAINTENANCE_DUE | PERFORMANCE_DEGRADATION

record AlertRule =
  rule_id :: string
  rule_name :: string
  condition :: string
  rule_alert_type :: AlertType
  rule_priority :: AlertPriority
  message_template :: string
  cooldown_minutes :: int
  enabled :: bool
  acknowledgement_required :: bool

record Alert =
  alert_id :: string
  alert_rule_id :: string
  alert_timestamp :: datetime
  alert_type :: AlertType
  priority :: AlertPriority
  message :: string
  source_point :: string
  current_value :: "int option"
  acknowledged :: bool
  acknowledged_by :: "string option"
  acknowledged_time :: "datetime option"
  resolved :: bool
  resolved_time :: "datetime option"

text \<open>
  The fields of the dataclass \<open>Alert\<close>, in order; the first eight have no default.
  The \<open>__init__\<close> that \<open>@dataclass\<close> generates raises \<open>TypeError\<close> for a keyword
  that is not a field and for a field without default that is not given.
\<close>

definition Alert_fields :: "string list" where
  "Alert_fields =
     [''alert_id'', ''rule_id'', ''timestamp'', ''alert_type'', ''priority'', ''message'',
      ''source_point'', ''current_value'', ''acknowledged'', ''acknowledged_by'',
      ''acknowledged_time'', ''resolved'', ''resolved_time'']"

definition Alert_required :: "string list" where
  "Alert_required = take 8 Alert_fields"

definition dataclass_init :: "string list \<Rightarrow> string list \<Rightarrow> string list \<Rightarrow> py_error + unit" where
  "dataclass_init flds required kws =
     (case filter (\<lambda>k. k \<notin> set flds) kws of
        k # _ \<Rightarrow> Inl (TypeError k)
      | [] \<Rightarrow>
          (case filter (\<lambda>f. f \<notin> set kws) required of
             f # _ \<Rightarrow> Inl (TypeError f)
           | [] \<Rightarrow> Inr ()))"

subsection \<open>AlertManager\<close>

text \<open>
  Every \<open>Alert\<close> object is created in \<open>_trigger_alert\<close> and appended to
  \<open>alert_history\<close> there, and nothing is ever removed from that list. The same object
  is also the value in \<open>active_alerts\<close> and the item in \<open>alert_queue\<close>, and
  \<open>acknowledge_alert\<close> and \<open>resolve_alert\<close> mutate it in place. So
  \<open>alert_history\<close> is the store of the alert objects, and \<open>active_alerts\<close> and
  \<open>alert_queue\<close> refer to an object by its position in the store (a reference is
  the position the object was appended at, so it is always within the store).
\<close>

record AlertManager =
  alert_rules :: "(string \<times> AlertRule) list"
  active_alerts :: "(string \<times> nat) list"
  alert_history :: "Alert list"
  cooldown_tracker :: "(string \<times> datetime) list"
  alert_queue :: "nat list"

definition AlertManager_init :: AlertManager where
  "AlertManager_init =
     \<lparr>alert_rules = [], active_alerts = [], alert_history = [], cooldown_tracker = [],
      alert_queue = []\<rparr>"

definition add_alert_rule :: "AlertRule \<Rightarrow> AlertManager \<Rightarrow> AlertManager" where
  "add_alert_rule rule s = s\<lparr>alert_rules := dict_set (rule_id rule) rule (alert_rules s)\<rparr>"

text \<open>
  What Python itself does is a parameter: \<open>py_eval\<close> is \<open>eval\<close> of a condition in
  the context built from the snapshot (its truth value, or the exception raised), and
  \<open>py_format\<close> is \<open>str.format\<close> of a template with \<open>value\<close>, \<open>point\<close> and
  \<open>time\<close>.
\<close>

record python =
  py_eval :: "string \<Rightarrow> (string \<times> MonitoringData) list \<Rightarrow> datetime \<Rightarrow> py_error + bool"
  py_format :: "string \<Rightarrow> int option \<Rightarrow> string \<Rightarrow> datetime \<Rightarrow> py_error + string"

text \<open>Decimal digits of an integer, for the f-string that builds \<open>alert_id\<close>.\<close>

fun dec :: "nat \<Rightarrow> string" where
  "dec n = (if n < 10 then [char_of (48 + n)] else dec (n div 10) @ [char_of (48 + n mod 10)])"

declare dec.simps [simp del]

definition str_int :: "int \<Rightarrow> string" where
  "str_int i = (if i < 0 then CHR ''-'' # dec (nat (- i)) else dec (nat i))"

text \<open>\<open>needle in haystack\<close> on strings: the needle occurs as a contiguous part.\<close>

fun starts_with :: "string \<Rightarrow> string \<Rightarrow> bool" where
  "starts_with [] ys = True"
| "starts_with (x # xs) [] = False"
| "starts_with (x # xs) (y # ys) = (x = y \<and> starts_with xs ys)"

fun str_in :: "string \<Rightarrow> string \<Rightarrow> bool" where
  "str_in needle [] = (needle = [])"
| "str_in needle (y # ys) = (starts_with needle (y # ys) \<or> str_in needle ys)"

text \<open>
  The loop of \<open>_trigger_alert\<close> over the snapshot: the first point, in the order
  of the snapshot, whose id occurs in the text of the condition.
\<close>

fun find_source_point :: "(string \<times> MonitoringData) list \<Rightarrow> string \<Rightarrow> string \<times> int option" where
  "find_source_point [] cond = (''unknown'', None)"
| "find_source_point (p # ps) cond =
     (if str_in (fst p) cond then (fst p, Some (val (snd p))) else find_source_point ps cond)"

text \<open>The keywords of the call \<open>Alert(...)\<close> in \<open>_trigger_alert\<close>.\<close>

definition trigger_alert_keywords :: "string list" where
  "trigger_alert_keywords =
     [''alert_id'', ''rule_id'', ''timestamp'', ''alert_type'', ''priority'', ''message'',
      ''source_point'', ''current_value'', ''acknowledgement_required'']"

text \<open>
  \<open>_trigger_alert\<close>, with the keywords of its constructor call as a parameter
  (\<open>trigger_alert\<close> below is the source's call). An exception leaves the manager as
  it was: the message is formatted and the \<open>Alert\<close> constructed before anything is
  stored.
\<close>

definition trigger_alert_with ::
  "string list \<Rightarrow> python \<Rightarrow> datetime \<Rightarrow> AlertRule \<Rightarrow> (string \<times> MonitoringData) list
   \<Rightarrow> AlertManager \<Rightarrow> py_error + AlertManager" where
  "trigger_alert_with kws py now rule monitoring_data s =
     (let aid = rule_id rule @ ''_'' @ str_int now;
          src = find_source_point monitoring_data (condition rule)
      in case py_format py (message_template rule) (snd src) (fst src) now of
           Inl e \<Rightarrow> Inl e
         | Inr msg \<Rightarrow>
             (case dataclass_init Alert_fields Alert_required kws of
                Inl e \<Rightarrow> Inl e
              | Inr _ \<Rightarrow>
                  (let alert =
                         \<lparr>alert_id = aid, alert_rule_id = rule_id rule, alert_timestamp = now,
                          alert_type = rule_alert_type rule, priority = rule_priority rule,
                          message = msg, source_point = fst src, current_value = snd src,
                          acknowledged = False, acknowledged_by = None,
                          acknowledged_time = None, resolved = False, resolved_time = None\<rparr>;
                       ref = length (alert_history s)
                   in Inr (s\<lparr>active_alerts := dict_set aid ref (active_alerts s),
                             alert_history := alert_history s @ [alert],
                             cooldown_tracker := dict_set (rule_id rule) now (cooldown_tracker s),
                             alert_queue := alert_queue s @ [ref]\<rparr>))))"

definition trigger_alert ::
  "python \<Rightarrow> datetime \<Rightarrow> AlertRule \<Rightarrow> (string \<times> MonitoringData) list
   \<Rightarrow> AlertManager \<Rightarrow> py_error + AlertManager" where
  "trigger_alert = trigger_alert_with trigger_alert_keywords"

text \<open>
  \<open>evaluate_alerts\<close>, one rule at a time: a disabled rule is skipped; so is a rule
  whose cooldown has not ended (\<open>now < tracker + timedelta(minutes)\<close>); otherwise the
  condition is evaluated and, when true, the alert triggered. The \<open>try\<close> encloses
  both the evaluation and \<open>_trigger_alert\<close>: whatever they raise is logged and the
  loop goes on with the next rule. \<open>now\<close> is the clock reading of the cycle.
\<close>

definition in_cooldown :: "AlertManager \<Rightarrow> string \<Rightarrow> AlertRule \<Rightarrow> datetime \<Rightarrow> bool" where
  "in_cooldown s rid rule now =
     (case map_of (cooldown_tracker s) rid of
        None \<Rightarrow> False
      | Some t \<Rightarrow> now < t + 60 * cooldown_minutes rule)"

definition evaluate_rule ::
  "python \<Rightarrow> datetime \<Rightarrow> (string \<times> MonitoringData) list \<Rightarrow> string \<times> AlertRule
   \<Rightarrow> AlertManager \<Rightarrow> AlertManager" where
  "evaluate_rule py now monitoring_data r s =
     (if \<not> enabled (snd r) then s
      else if in_cooldown s (fst r) (snd r) now then s
      else (case py_eval py (condition (snd r)) monitoring_data now of
              Inl e \<Rightarrow> s
            | Inr c \<Rightarrow>
                (if c then (case trigger_alert py now (snd r) monitoring_data s of
                             Inl e \<Rightarrow> s
                           | Inr s' \<Rightarrow> s')
                 else s)))"

definition evaluate_alerts ::
  "python \<Rightarrow> datetime \<Rightarrow> (string \<times> MonitoringData) list \<Rightarrow> AlertManager \<Rightarrow> AlertManager" where
  "evaluate_alerts py now monitoring_data s =
     fold (evaluate_rule py now monitoring_data) (alert_rules s) s"

text \<open>
  \<open>_alert_evaluation_loop\<close>: one \<open>evaluate_alerts\<close> per cycle, on the snapshot
  taken at that cycle; the list gives the clock reading and the snapshot of each cycle
  that ran.
\<close>

definition alert_evaluation_loop ::
  "python \<Rightarrow> (datetime \<times> (string \<times> MonitoringData) list) list \<Rightarrow> AlertManager \<Rightarrow> AlertManager" where
  "alert_evaluation_loop py cycles s = fold (\<lambda>c. evaluate_alerts py (fst c) (snd c)) cycles s"

text \<open>The alerts that are active: the objects the active set refers to.\<close>

definition active_objects :: "AlertManager \<Rightarrow> Alert list" where
  "active_objects s = map (\<lambda>p. alert_history s ! snd p) (active_alerts s)"

definition acknowledge_alert ::
  "datetime \<Rightarrow> string \<Rightarrow> string \<Rightarrow> AlertManager \<Rightarrow> bool \<times> AlertManager" where
  "acknowledge_alert now aid user s =
     (case map_of (active_alerts s) aid of
        Some ref \<Rightarrow>
          (True,
           s\<lparr>alert_history :=
               (alert_history s)[ref := (alert_history s ! ref)
                  \<lparr>acknowledged := True, acknowledged_by := Some user,
                   acknowledged_time := Some now\<rparr>]\<rparr>)
      | None \<Rightarrow> (False, s))"

definition resolve_alert :: "datetime \<Rightarrow> string \<Rightarrow> AlertManager \<Rightarrow> bool \<times> AlertManager" where
  "resolve_alert now aid s =
     (case map_of (active_alerts s) aid of
        Some ref \<Rightarrow>
          (True,
           s\<lparr>alert_history :=
               (alert_history s)[ref := (alert_history s ! ref)
                  \<lparr>resolved := True, resolved_time := Some now\<rparr>],
             active_alerts := dict_del aid (active_alerts s)\<rparr>)
      | None \<Rightarrow> (False, s))"

text \<open>
  \<open>sorted(xs, key=k, reverse=True)\<close>: descending by key, and stable, that is elements
  with equal keys keep the order they had in \<open>xs\<close>.
\<close>

definition sorted_reverse :: "('a \<Rightarrow> 'k::linorder) \<Rightarrow> 'a list \<Rightarrow> 'a list" where
  "sorted_reverse k xs = rev (sort_key k (rev xs))"

definition alert_key :: "Alert \<Rightarrow> int \<times> datetime" where
  "alert_key x = (priority_value (priority x), alert_timestamp x)"

definition get_active_alerts :: "AlertManager \<Rightarrow> AlertPriority option \<Rightarrow> Alert list" where
  "get_active_alerts s priority_filter =
     (let alerts = active_objects s;
          alerts' = (case priority_filter of
                       None \<Rightarrow> alerts
                     | Some f \<Rightarrow> filter (\<lambda>a. priority a = f) alerts)
      in sorted_reverse alert_key alerts')"

text \<open>
  The descending lexicographic order of (priority value, timestamp), written out:
  \<open>a\<close> may come before \<open>b\<close>.
\<close>

definition alert_before :: "Alert \<Rightarrow> Alert \<Rightarrow> bool" where
  "alert_before a b =
     (priority_value (priority a) > priority_value (priority b)
      \<or> (priority_value (priority a) = priority_value (priority b)
          \<and> alert_timestamp a \<ge> alert_timestamp b))"

subsection \<open>Notification dispatch\<close>

datatype channel = Webhook | Email | SMS | Broadcast

text \<open>
  \<open>_broadcast_alert\<close>. With no client connected it returns at once. Otherwise it
  calls \<open>asyncio.create_task(client.send(message))\<close> for each client; a client for
  which the call raises is removed from \<open>connected_clients\<close> afterwards.
  \<open>create_task\<close> raises \<open>RuntimeError\<close> in a thread in which no event loop is
  running. The result is the clients for which a send was scheduled, and the clients that
  stay connected. Clients are numbered.
\<close>

definition create_task :: "bool \<Rightarrow> py_error + unit" where
  "create_task running_loop = (if running_loop then Inr () else Inl RuntimeError)"

definition broadcast_alert :: "bool \<Rightarrow> nat list \<Rightarrow> Alert \<Rightarrow> nat list \<times> nat list" where
  "broadcast_alert running_loop connected_clients alert =
     (if connected_clients = [] then ([], connected_clients)
      else (let disconnected_clients =
                  filter (\<lambda>client. case create_task running_loop of
                                     Inl e \<Rightarrow> True
                                   | Inr _ \<Rightarrow> False) connected_clients;
                scheduled = filter (\<lambda>client. client \<notin> set disconnected_clients) connected_clients
            in (scheduled, filter (\<lambda>client. client \<notin> set disconnected_clients) connected_clients)))"

text \<open>
  \<open>_process_alert_notification\<close> is called by \<open>_notification_processing_loop\<close>
  only, which \<open>start_monitoring\<close> submits to the thread pool: it runs in a worker
  thread, where no event loop is running (the loop of the WebSocket server runs in
  another worker thread).
\<close>

definition dispatcher_running_loop :: bool where
  "dispatcher_running_loop = False"

text \<open>
  \<open>_process_alert_notification\<close>: the channels the alert is sent on, and the
  clients that stay connected. In every branch \<open>send_webhook_alert\<close> is called and
  the calls of \<open>send_email_alert\<close> and \<open>send_sms_alert\<close> are commented out;
  \<open>_broadcast_alert\<close> follows the branches, and the alert goes out on the live
  broadcast when a send is scheduled for some client.
\<close>

definition process_alert_notification :: "nat list \<Rightarrow> Alert \<Rightarrow> channel list \<times> nat list" where
  "process_alert_notification connected_clients alert =
     (let called = (if priority alert \<in> set [EMERGENCY, CRITICAL] then [Webhook]
                    else if priority alert = HIGH then [Webhook]
                    else [Webhook]);
          b = broadcast_alert dispatcher_running_loop connected_clients alert
      in (called @ (if fst b = [] then [] else [Broadcast]), snd b))"

text \<open>The routing as the specification words it.\<close>

definition spec_channels :: "AlertPriority \<Rightarrow> channel set" where
  "spec_channels p =
     (if p = EMERGENCY \<or> p = CRITICAL then {Webhook, Email, SMS, Broadcast}
      else if p = HIGH then {Webhook, Email}
      else {Webhook})"

section \<open>Data model of industrial_protocols.py\<close>

subsection \<open>struct.pack and struct.unpack\<close>

text \<open>
  Bytes are 8-bit words; the numbers packed and unpacked are Python integers.
  \<open>struct.pack\<close> raises \<open>struct.error\<close> for a number outside the range of its
  format (\<open>B\<close>: one byte, \<open>H\<close>: two bytes), \<open>struct.unpack\<close> for a buffer of the
  wrong length.
\<close>

type_synonym byte = "8 word"

datatype fmt = FmtB | FmtH

definition pack_be :: "fmt \<Rightarrow> int \<Rightarrow> py_error + byte list" where
  "pack_be f v =
     (case f of
        FmtB \<Rightarrow> (if 0 \<le> v \<and> v \<le> 255 then Inr [word_of_int v] else Inl StructError)
      | FmtH \<Rightarrow> (if 0 \<le> v \<and> v \<le> 65535
                 then Inr [word_of_int (v div 256), word_of_int (v mod 256)]
                 else Inl StructError))"

fun struct_pack_be :: "(fmt \<times> int) list \<Rightarrow> py_error + byte list" where
  "struct_pack_be [] = Inr []"
| "struct_pack_be (p # ps) =
     (case pack_be (fst p) (snd p) of
        Inl e \<Rightarrow> Inl e
      | Inr bs \<Rightarrow> (case struct_pack_be ps of Inl e \<Rightarrow> Inl e | Inr cs \<Rightarrow> Inr (bs @ cs)))"

definition pack_le_H :: "int \<Rightarrow> py_error + byte list" where
  "pack_le_H v =
     (if 0 \<le> v \<and> v \<le> 65535 then Inr [word_of_int (v mod 256), word_of_int (v div 256)]
      else Inl StructError)"

definition unpack_be_H :: "byte list \<Rightarrow> py_error + int" where
  "unpack_be_H bs = (case bs of [hi, lo] \<Rightarrow> Inr (uint hi * 256 + uint lo) | _ \<Rightarrow> Inl StructError)"

definition unpack_le_H :: "byte list \<Rightarrow> py_error + int" where
  "unpack_le_H bs = (case bs of [lo, hi] \<Rightarrow> Inr (uint hi * 256 + uint lo) | _ \<Rightarrow> Inl StructError)"

text \<open>
  The loop \<open>for i in range(0, len(data), 2)\<close> of both read functions: each chunk
  \<open>data[i:i+2]\<close> is unpacked as a big-endian 16-bit number; a last chunk of one byte
  makes \<open>struct.unpack\<close> raise.
\<close>

fun unpack_registers :: "byte list \<Rightarrow> py_error + int list" where
  "unpack_registers [] = Inr []"
| "unpack_registers [b] = (case unpack_be_H [b] of Inl e \<Rightarrow> Inl e | Inr v \<Rightarrow> Inr [v])"
| "unpack_registers (hi # lo # rest) =
     (case unpack_be_H [hi, lo] of
        Inl e \<Rightarrow> Inl e
      | Inr v \<Rightarrow> (case unpack_registers rest of Inl e \<Rightarrow> Inl e | Inr vs \<Rightarrow> Inr (v # vs)))"

subsection \<open>Connections\<close>

text \<open>
  A connection (socket or serial port) is the list of the exchanges it will still
  carry: each exchange maps the frame written to the bytes then read, or fails (timeout,
  connection lost). One write followed by one read takes the head of the list. A
  connection that was never opened carries none.
\<close>

type_synonym exchange = "byte list \<Rightarrow> py_error + byte list"

record ProtocolConfig =
  host :: string
  port :: int
  unit_id :: int
  retries :: int


record ModbusRTUProtocol =
  rtu_config :: ProtocolConfig
  serial_port :: "exchange list"

subsection \<open>Modbus TCP: read_holding_registers\<close>




subsection \<open>Modbus RTU: CRC and read_input_registers\<close>

text \<open>
  \<open>_calculate_crc\<close>: the register starts at \<open>0xFFFF\<close>; each byte is XORed into it
  and the register is then shifted right eight times, XORing \<open>0xA001\<close> in whenever the
  bit shifted out was set. \<open>crc_shift n\<close> is \<open>n\<close> rounds of the inner loop.
\<close>

fun crc_shift :: "nat \<Rightarrow> int \<Rightarrow> int" where
  "crc_shift 0 crc = crc"
| "crc_shift (Suc n) crc =
     crc_shift n (if crc AND 1 \<noteq> 0 then drop_bit 1 crc XOR 0xA001 else drop_bit 1 crc)"

definition calculate_crc :: "byte list \<Rightarrow> int" where
  "calculate_crc data = fold (\<lambda>byte crc. crc_shift 8 (crc XOR uint byte)) data 0xFFFF"

definition read_input_request :: "int \<Rightarrow> int \<Rightarrow> int \<Rightarrow> py_error + byte list" where
  "read_input_request unit address cnt =
     (case struct_pack_be [(FmtB, unit), (FmtB, 4), (FmtH, address), (FmtH, cnt)] of
        Inl e \<Rightarrow> Inl e
      | Inr frame_data \<Rightarrow>
          (case pack_le_H (calculate_crc frame_data) of
             Inl e \<Rightarrow> Inl e
           | Inr c \<Rightarrow> Inr (frame_data @ c)))"

text \<open>
  The response: \<open>response[:-2]\<close> is checked against the little-endian number in
  \<open>response[-2:]\<close>; the registers are read from \<open>response[3:3+byte_count]\<close>.
\<close>

definition input_response_values :: "byte list \<Rightarrow> py_error + int list option" where
  "input_response_values response =
     (if length response \<ge> 5 then
        (let data_part = take (length response - 2) response
         in case unpack_le_H (drop (length response - 2) response) of
              Inl e \<Rightarrow> Inl e
            | Inr received_crc \<Rightarrow>
                (let calculated_crc = calculate_crc data_part
                 in if received_crc = calculated_crc \<and> response ! 1 = 4 then
                      (let byte_count = unat (response ! 2);
                           data = take byte_count (drop 3 response)
                       in case unpack_registers data of
                            Inl e \<Rightarrow> Inl e
                          | Inr values \<Rightarrow> Inr (Some values))
                    else Inr None))
      else Inr None)"

definition read_input_registers ::
  "int \<Rightarrow> int \<Rightarrow> ModbusRTUProtocol \<Rightarrow> int list option \<times> ModbusRTUProtocol" where
  "read_input_registers address cnt st =
     (case read_input_request (unit_id (rtu_config st)) address cnt of
        Inl e \<Rightarrow> (None, st)
      | Inr frame \<Rightarrow>
          (case serial_port st of
             [] \<Rightarrow> (None, st)
           | ex # rest \<Rightarrow>
               (let st2 = st\<lparr>serial_port := rest\<rparr>
                in case ex frame of
                     Inl e \<Rightarrow> (None, st2)
                   | Inr received \<Rightarrow>
                       (case input_response_values (take 1024 received) of
                          Inl e \<Rightarrow> (None, st2)
                        | Inr r \<Rightarrow> (r, st2)))))"

subsection \<open>The device's side\<close>

text \<open>
  The responses of a Modbus device that serves a read from its registers (16-bit
  words), as the Modbus application protocol lays them out. A register takes two bytes,
  high byte first. The TCP response repeats the transaction id, the protocol id and the
  unit id of the request, and carries the function code 3, the byte count and the
  registers; the RTU response is unit id, function code 4, byte count and registers,
  followed by the CRC of these bytes, low byte first.
\<close>

definition register_bytes :: "16 word list \<Rightarrow> byte list" where
  "register_bytes regs =
     concat (map (\<lambda>r. [word_of_int (uint r div 256), word_of_int (uint r mod 256)]) regs)"


definition crc_bytes :: "byte list \<Rightarrow> byte list" where
  "crc_bytes payload =
     [word_of_int (calculate_crc payload mod 256), word_of_int (calculate_crc payload div 256)]"

definition rtu_payload :: "byte \<Rightarrow> 16 word list \<Rightarrow> byte list" where
  "rtu_payload unit regs = [unit, 4, word_of_int (2 * int (length regs))] @ register_bytes regs"

definition rtu_response :: "byte \<Rightarrow> 16 word list \<Rightarrow> byte list" where
  "rtu_response unit regs = rtu_payload unit regs @ crc_bytes (rtu_payload unit regs)"

section \<open>The example configuration\<close>

text \<open>
  The point and the rule of the example at the end of realtime_monitoring.py: point
  T001 (the reactor temperature) and the rule TEMP_HIGH on it, of priority CRITICAL, with
  the default cooldown of five minutes. (The message template of the source has a degree
  sign after \<open>{value}\<close>.)
\<close>

definition point_T001 :: MonitoringPoint where
  "point_T001 =
     \<lparr>mp_point_id = ''T001'', mp_name = ''Reactor Temperature'', scan_rate_ms = 1000,
      mp_enabled = True\<rparr>"

definition rule_TEMP_HIGH :: AlertRule where
  "rule_TEMP_HIGH =
     \<lparr>rule_id = ''TEMP_HIGH'', rule_name = ''High Temperature Alert'',
      condition = ''get_value('T001') > 95'', rule_alert_type = PROCESS_ALARM,
      rule_priority = CRITICAL,
      message_template = ''Temperature alarm: {value} at point {point}'',
      cooldown_minutes = 5, enabled = True, acknowledgement_required = True\<rparr>"

definition manager_TEMP_HIGH :: AlertManager where
  "manager_TEMP_HIGH = add_alert_rule rule_TEMP_HIGH AlertManager_init"

text \<open>The snapshot when the latest sample of T001 has the value 96.\<close>

definition snapshot_96 :: "(string \<times> MonitoringData) list" where
  "snapshot_96 = get_all_latest (add_point ''T001'' (sample_T001 0 96) (DataBuffer_init 10000))"

text \<open>
  \<open>get_value\<close> of the evaluation context: the value of the point in the snapshot, 0
  for a point that is not there. \<open>python_example\<close> is Python on the condition and the
  template of TEMP_HIGH.
\<close>

definition get_value :: "(string \<times> MonitoringData) list \<Rightarrow> string \<Rightarrow> int" where
  "get_value monitoring_data pid = (case map_of monitoring_data pid of None \<Rightarrow> 0 | Some d \<Rightarrow> val d)"

definition python_example :: python where
  "python_example =
     \<lparr>py_eval = (\<lambda>cond monitoring_data now.
          if cond = ''get_value('T001') > 95'' then Inr (get_value monitoring_data ''T001'' > 95)
          else Inl EvalError),
      py_format = (\<lambda>template v p now.
          if template = ''Temperature alarm: {value} at point {point}''
          then Inr (''Temperature alarm: '' @ (case v of None \<Rightarrow> ''None'' | Some x \<Rightarrow> str_int x)
                    @ '' at point '' @ p)
          else Inl FormatError)\<rparr>"

text \<open>An alert of a given id, priority and time, and a manager that holds alerts as active.\<close>

definition example_alert :: "string \<Rightarrow> AlertPriority \<Rightarrow> datetime \<Rightarrow> Alert" where
  "example_alert aid p t =
     \<lparr>alert_id = aid, alert_rule_id = ''TEMP_HIGH'', alert_timestamp = t,
      alert_type = PROCESS_ALARM, priority = p, message = ''Temperature alarm'',
      source_point = ''T001'', current_value = Some 96, acknowledged = False,
      acknowledged_by = None, acknowledged_time = None, resolved = False,
      resolved_time = None\<rparr>"

definition manager_with :: "Alert list \<Rightarrow> AlertManager" where
  "manager_with alerts =
     AlertManager_init
       \<lparr>active_alerts := zip (map alert_id alerts) [0..<length alerts],
        alert_history := alerts\<rparr>"

text \<open>
  A Modbus connection of unit 1 with \<open>retries = 3\<close> (the default of
  \<open>ProtocolConfig\<close>), the exchanges of a device that serves given registers, and an
  exchange that fails.
\<close>

definition example_config :: ProtocolConfig where
  "example_config = \<lparr>host = ''localhost'', port = 502, unit_id = 1, retries = 3\<rparr>"


definition rtu_connected :: "exchange list \<Rightarrow> ModbusRTUProtocol" where
  "rtu_connected exs = \<lparr>rtu_config = example_config, serial_port = exs\<rparr>"


definition answering :: "byte list \<Rightarrow> exchange" where
  "answering response = (\<lambda>request. Inr response)"


section \<open>Properties of the data buffer\<close>

lemma map_of_dict_set: "map_of (dict_set k v ps) k' = (if k' = k then Some v else map_of ps k')"
  by (induction ps) auto

lemma samples_add_point:
  "samples (add_point pid d b) q =
     (if q = pid
      then (if length (samples b pid) + 1 > max_size b
            then tl (samples b pid @ [d]) else samples b pid @ [d])
      else samples b q)"
  by (simp add: add_point_def samples_def Let_def map_of_dict_set)

lemma max_size_add_point: "max_size (add_point pid d b) = max_size b"
  by (simp add: add_point_def Let_def)

lemma max_size_add_points: "max_size (add_points pid ds b) = max_size b"
  unfolding add_points_def by (induction ds arbitrary: b) (simp_all add: max_size_add_point)

lemma samples_add_points_other:
  "q \<noteq> pid \<Longrightarrow> samples (add_points pid ds b) q = samples b q"
  unfolding add_points_def by (induction ds arbitrary: b) (simp_all add: samples_add_point)

lemma tl_as_drop: "tl xs = drop 1 xs"
  by (simp add: drop_Suc)

lemma samples_add_point_drop:
  assumes "length (samples b pid) \<le> max_size b"
  shows "samples (add_point pid d b) pid =
           drop (length (samples b pid) + 1 - max_size b) (samples b pid @ [d])"
proof (cases "length (samples b pid) + 1 > max_size b")
  case True
  with assms have one: "length (samples b pid) + 1 - max_size b = 1" by simp
  have "samples (add_point pid d b) pid = tl (samples b pid @ [d])"
    using True by (simp add: samples_add_point)
  also have "\<dots> = drop 1 (samples b pid @ [d])"
    by (rule tl_as_drop)
  finally show ?thesis
    by (simp only: one)
next
  case False
  then show ?thesis by (simp add: samples_add_point)
qed

lemma drop_append_drop:
  assumes "k \<le> length zs"
  shows "drop m (drop k zs @ ds) = drop (m + k) (zs @ ds)"
proof -
  have "drop k zs @ ds = drop k (zs @ ds)"
    using assms by simp
  then show ?thesis
    by (simp only: drop_drop)
qed

lemma samples_add_points:
  "length (samples b pid) \<le> max_size b \<Longrightarrow>
   samples (add_points pid ds b) pid =
     drop (length (samples b pid) + length ds - max_size b) (samples b pid @ ds)"
proof (induction ds arbitrary: b)
  case Nil
  then show ?case by (simp add: add_points_def)
next
  case (Cons d ds)
  define b' where "b' = add_point pid d b"
  define zs where "zs = samples b pid @ [d]"
  define k where "k = length (samples b pid) + 1 - max_size b"
  define n where "n = max_size b"
  have step: "samples b' pid = drop k zs"
    unfolding b'_def zs_def k_def by (rule samples_add_point_drop [OF Cons.prems])
  have n': "max_size b' = n"
    by (simp add: b'_def n_def max_size_add_point)
  have lz: "length zs = length (samples b pid) + 1"
    by (simp add: zs_def)
  have k: "k \<le> length zs"
    by (simp add: k_def lz)
  have len: "length (samples b' pid) \<le> max_size b'"
    using Cons.prems by (simp add: step n' lz k_def n_def)
  have arith: "length (drop k zs) + length ds - n + k = length (samples b pid) + length (d # ds) - n"
    using Cons.prems by (simp add: lz k_def n_def)
  have "samples (add_points pid (d # ds) b) pid = samples (add_points pid ds b') pid"
    by (simp add: add_points_def b'_def)
  also have "\<dots> = drop (length (samples b' pid) + length ds - max_size b') (samples b' pid @ ds)"
    by (rule Cons.IH [OF len])
  also have "\<dots> = drop (length (drop k zs) + length ds - n) (drop k zs @ ds)"
    by (simp only: step n')
  also have "\<dots> = drop (length (drop k zs) + length ds - n + k) (zs @ ds)"
    by (rule drop_append_drop [OF k])
  also have "\<dots> = drop (length (samples b pid) + length (d # ds) - n) (zs @ ds)"
    by (simp only: arith)
  finally show ?case
    by (simp add: zs_def n_def)
qed

lemma add_point_bounded:
  assumes "length (samples b q) \<le> max_size b"
  shows "length (samples (add_point pid d b) q) \<le> max_size (add_point pid d b)"
proof (cases "q = pid")
  case True
  with assms show ?thesis
    by (simp add: samples_add_point_drop max_size_add_point)
next
  case False
  with assms show ?thesis
    by (simp add: samples_add_point max_size_add_point)
qed

lemma add_all_bounded:
  "length (samples b q) \<le> max_size b \<Longrightarrow>
   length (samples (add_all evs b) q) \<le> max_size (add_all evs b)"
proof (induction evs arbitrary: b)
  case Nil
  then show ?case by (simp add: add_all_def)
next
  case (Cons e evs)
  have "length (samples (add_point (fst e) (snd e) b) q) \<le> max_size (add_point (fst e) (snd e) b)"
    by (rule add_point_bounded [OF Cons.prems])
  from Cons.IH [OF this] show ?case
    by (simp add: add_all_def)
qed

lemma samples_init: "samples (DataBuffer_init n) q = []"
  by (simp add: samples_def DataBuffer_init_def)

lemma max_size_add_all: "max_size (add_all evs b) = max_size b"
  unfolding add_all_def by (induction evs arbitrary: b) (simp_all add: max_size_add_point)

text \<open>
  C3. In every state reached from the empty buffer of capacity \<open>N\<close> by \<open>add_point\<close>
  calls on any points, no point holds more than \<open>N\<close> samples. Adding a sample to a
  point whose list is full (it holds \<open>max_size\<close> samples) leaves the old samples
  followed by the new one, without the oldest. Inserting \<open>N + 1\<close> samples into the
  empty buffer leaves exactly \<open>N\<close> of them: all but the first, in insertion order, so
  that (for a capacity of at least one) the newest is the last.
\<close>

theorem C3_buffer_bounded_fifo:
  "length (samples (add_all evs (DataBuffer_init N)) q) \<le> N
   \<and> (length (samples b pid) = max_size b \<longrightarrow>
        samples (add_point pid d b) pid = tl (samples b pid @ [d])
        \<and> length (samples (add_point pid d b) pid) = max_size b)
   \<and> (length ds = N + 1 \<longrightarrow>
        samples (add_points pid ds (DataBuffer_init N)) pid = tl ds
        \<and> length (samples (add_points pid ds (DataBuffer_init N)) pid) = N
        \<and> (0 < N \<longrightarrow> last (samples (add_points pid ds (DataBuffer_init N)) pid) = last ds))"
proof (intro conjI impI)
  have "length (samples (add_all evs (DataBuffer_init N)) q) \<le> max_size (add_all evs (DataBuffer_init N))"
    by (rule add_all_bounded) (simp add: samples_init)
  then show "length (samples (add_all evs (DataBuffer_init N)) q) \<le> N"
    by (simp add: max_size_add_all DataBuffer_init_def)
next
  assume full: "length (samples b pid) = max_size b"
  then show a: "samples (add_point pid d b) pid = tl (samples b pid @ [d])"
    by (simp add: samples_add_point)
  show "length (samples (add_point pid d b) pid) = max_size b"
    using full by (simp add: a)
next
  assume len: "length ds = N + 1"
  have bound: "length (samples (DataBuffer_init N) pid) \<le> max_size (DataBuffer_init N)"
    by (simp add: samples_init)
  have N: "max_size (DataBuffer_init N) = N"
    by (simp add: DataBuffer_init_def)
  have "samples (add_points pid ds (DataBuffer_init N)) pid =
          drop (length (samples (DataBuffer_init N) pid) + length ds - max_size (DataBuffer_init N))
            (samples (DataBuffer_init N) pid @ ds)"
    by (rule samples_add_points [OF bound])
  then have "samples (add_points pid ds (DataBuffer_init N)) pid = drop 1 ds"
    using len by (simp add: samples_init N)
  then show eq: "samples (add_points pid ds (DataBuffer_init N)) pid = tl ds"
    by (simp add: tl_as_drop)
  show "length (samples (add_points pid ds (DataBuffer_init N)) pid) = N"
    using len by (simp add: eq)
  assume "0 < N"
  with len have "tl ds \<noteq> []"
    by (cases ds) auto
  then show "last (samples (add_points pid ds (DataBuffer_init N)) pid) = last ds"
    by (simp add: eq last_tl)
qed

text \<open>
  The theorem at a buffer of capacity 2 for point T001: the third sample pushes the
  first one out.
\<close>

theorem C3_buffer_bounded_fifo_witness:
  "length (samples (add_points ''T001'' [sample_T001 0 10, sample_T001 1 20] (DataBuffer_init 2)) ''T001'')
     = max_size (add_points ''T001'' [sample_T001 0 10, sample_T001 1 20] (DataBuffer_init 2))
   \<and> samples (add_point ''T001'' (sample_T001 2 30)
        (add_points ''T001'' [sample_T001 0 10, sample_T001 1 20] (DataBuffer_init 2))) ''T001''
     = [sample_T001 1 20, sample_T001 2 30]
   \<and> length [sample_T001 0 10, sample_T001 1 20, sample_T001 2 30] = 2 + 1
   \<and> (0::nat) < 2
   \<and> samples (add_points ''T001'' [sample_T001 0 10, sample_T001 1 20, sample_T001 2 30]
        (DataBuffer_init 2)) ''T001''
     = [sample_T001 1 20, sample_T001 2 30]
   \<and> last (samples (add_points ''T001'' [sample_T001 0 10, sample_T001 1 20, sample_T001 2 30]
        (DataBuffer_init 2)) ''T001'') = sample_T001 2 30"
proof -
  let ?b = "add_points ''T001'' [sample_T001 0 10, sample_T001 1 20] (DataBuffer_init 2)"
  have s: "samples ?b ''T001'' = [sample_T001 0 10, sample_T001 1 20]"
    by (simp add: add_points_def add_point_def samples_def DataBuffer_init_def Let_def)
  have m: "max_size ?b = 2"
    by (simp add: max_size_add_points DataBuffer_init_def)
  have full: "length (samples ?b ''T001'') = max_size ?b"
    by (simp add: s m)
  have len: "length [sample_T001 0 10, sample_T001 1 20, sample_T001 2 30] = 2 + 1"
    by simp
  show ?thesis
    using full len
      C3_buffer_bounded_fifo [where N = 2 and b = ?b and pid = "''T001''" and d = "sample_T001 2 30"
        and ds = "[sample_T001 0 10, sample_T001 1 20, sample_T001 2 30]"]
    by (simp add: s)
qed

section \<open>Alert evaluation\<close>

text \<open>
  The call \<open>Alert(...)\<close> in \<open>_trigger_alert\<close> passes the keyword
  \<open>acknowledgement_required\<close>, which is a field of \<open>AlertRule\<close> and not of
  \<open>Alert\<close>: the constructor raises.
\<close>

lemma dataclass_init_trigger:
  "dataclass_init Alert_fields Alert_required trigger_alert_keywords
     = Inl (TypeError ''acknowledgement_required'')"
  by (simp add: dataclass_init_def Alert_fields_def Alert_required_def trigger_alert_keywords_def)

lemma trigger_alert_raises: "\<exists>e. trigger_alert py now rule monitoring_data s = Inl e"
  by (simp add: trigger_alert_def trigger_alert_with_def dataclass_init_trigger Let_def
      split: sum.splits)

lemma evaluate_rule_unchanged: "evaluate_rule py now monitoring_data r s = s"
proof -
  obtain e where "trigger_alert py now (snd r) monitoring_data s = Inl e"
    using trigger_alert_raises by blast
  then show ?thesis
    by (simp add: evaluate_rule_def split: sum.splits)
qed

lemma fold_evaluate_rule: "fold (evaluate_rule py now monitoring_data) rs s = s"
  by (induction rs) (simp_all add: evaluate_rule_unchanged)

lemma evaluate_alerts_unchanged: "evaluate_alerts py now monitoring_data s = s"
  by (simp add: evaluate_alerts_def fold_evaluate_rule)

lemma alert_evaluation_loop_unchanged: "alert_evaluation_loop py cycles s = s"
  unfolding alert_evaluation_loop_def
  by (induction cycles) (simp_all add: evaluate_alerts_unchanged)

lemma snapshot_96_eq: "snapshot_96 = [(''T001'', sample_T001 0 96)]"
  by (simp add: snapshot_96_def get_all_latest_def get_latest_def add_point_def samples_def
      DataBuffer_init_def Let_def)

lemma manager_TEMP_HIGH_empty:
  "active_alerts manager_TEMP_HIGH = [] \<and> alert_history manager_TEMP_HIGH = []
   \<and> cooldown_tracker manager_TEMP_HIGH = [] \<and> alert_queue manager_TEMP_HIGH = []"
  by (simp add: manager_TEMP_HIGH_def add_alert_rule_def AlertManager_init_def)

text \<open>
  C1. The scenario of the claim: point T001 has the value 96 and the rule TEMP_HIGH
  (condition \<open>get_value('T001') > 95\<close>, priority CRITICAL) is enabled and not in
  cooldown. The condition evaluates to true and \<open>_trigger_alert\<close> is called, but the
  construction of the \<open>Alert\<close> raises a \<open>TypeError\<close>, which \<open>evaluate_alerts\<close>
  catches: after the evaluation cycle the manager is unchanged, with no active alert, no
  alert in the history, no cooldown started and nothing queued for notification. The claim
  expects one Active CRITICAL alert.
\<close>

theorem C1_scenario_creates_no_alert:
  "py_eval python_example (condition rule_TEMP_HIGH) snapshot_96 now = Inr True
   \<and> trigger_alert python_example now rule_TEMP_HIGH snapshot_96 manager_TEMP_HIGH
       = Inl (TypeError ''acknowledgement_required'')
   \<and> evaluate_alerts python_example now snapshot_96 manager_TEMP_HIGH = manager_TEMP_HIGH
   \<and> active_alerts (evaluate_alerts python_example now snapshot_96 manager_TEMP_HIGH) = []
   \<and> alert_history (evaluate_alerts python_example now snapshot_96 manager_TEMP_HIGH) = []
   \<and> cooldown_tracker (evaluate_alerts python_example now snapshot_96 manager_TEMP_HIGH) = []
   \<and> alert_queue (evaluate_alerts python_example now snapshot_96 manager_TEMP_HIGH) = []"
proof -
  have cond: "py_eval python_example (condition rule_TEMP_HIGH) snapshot_96 now = Inr True"
    by (simp add: python_example_def rule_TEMP_HIGH_def snapshot_96_eq get_value_def
        sample_T001_def)
  have fmt: "py_format python_example (message_template rule_TEMP_HIGH) v p now
        = Inr (''Temperature alarm: '' @ (case v of None \<Rightarrow> ''None'' | Some x \<Rightarrow> str_int x)
               @ '' at point '' @ p)" for v p
    by (simp add: python_example_def rule_TEMP_HIGH_def)
  have trig: "trigger_alert python_example now rule_TEMP_HIGH snapshot_96 manager_TEMP_HIGH
       = Inl (TypeError ''acknowledgement_required'')"
    by (simp add: trigger_alert_def trigger_alert_with_def fmt dataclass_init_trigger Let_def)
  show ?thesis
    using manager_TEMP_HIGH_empty trig cond by (simp add: evaluate_alerts_unchanged)
qed

text \<open>
  C2. The rule TEMP_HIGH has \<open>cooldown_minutes = 5\<close> and its condition is true at
  every cycle (T001 stays at 96). The evaluation loop runs once a second for ten minutes,
  at the seconds 0 to 599. No cycle creates an alert, since every trigger raises the
  \<open>TypeError\<close>: the history holds no alert at the end, where the claim expects exactly
  two (at second 0 and at second 300).
\<close>

theorem C2_ten_minutes_create_no_alert:
  "alert_history
     (alert_evaluation_loop python_example (map (\<lambda>t. (int t, snapshot_96)) [0..<600])
        manager_TEMP_HIGH) = []
   \<and> length (alert_history
        (alert_evaluation_loop python_example (map (\<lambda>t. (int t, snapshot_96)) [0..<600])
           manager_TEMP_HIGH)) \<noteq> 2"
  by (simp add: alert_evaluation_loop_unchanged manager_TEMP_HIGH_empty)

text \<open>
  For comparison, the same trigger with the keywords restricted to the fields of
  \<open>Alert\<close> (the call without \<open>acknowledgement_required\<close>): the alert is
  stored as active with the message of the scenario, the cooldown of the rule starts and
  the alert is queued.
\<close>

lemma str_int_96: "str_int 96 = ''96''"
  by code_simp

lemma dataclass_init_required: "dataclass_init Alert_fields Alert_required Alert_required = Inr ()"
  by (simp add: dataclass_init_def Alert_fields_def Alert_required_def)

lemma trigger_alert_with_fields_of_Alert:
  "\<exists>s'. trigger_alert_with Alert_required python_example 0 rule_TEMP_HIGH snapshot_96
           manager_TEMP_HIGH = Inr s'
     \<and> map message (active_objects s') = [''Temperature alarm: 96 at point T001'']
     \<and> map priority (active_objects s') = [CRITICAL]
     \<and> map resolved (active_objects s') = [False]
     \<and> map source_point (active_objects s') = [''T001'']
     \<and> cooldown_tracker s' = [(''TEMP_HIGH'', 0)]
     \<and> alert_queue s' = [0]"
  by (simp add: trigger_alert_with_def dataclass_init_required python_example_def
      rule_TEMP_HIGH_def snapshot_96_eq sample_T001_def manager_TEMP_HIGH_def add_alert_rule_def
      AlertManager_init_def active_objects_def str_int_96 Let_def)

section \<open>Alert lifecycle\<close>

lemma map_of_dict_del: "map_of (dict_del k ps) k' = (if k' = k then None else map_of ps k')"
  unfolding dict_del_def by (induction ps) auto

text \<open>
  C8. An alert id that is not in the active set is unknown or already resolved
  (\<open>resolve_alert\<close> deletes the id it resolves): on such an id both
  \<open>resolve_alert\<close> and \<open>acknowledge_alert\<close> return \<open>False\<close> and leave the whole
  manager, the alert objects included, as it was. On an id in the active set
  \<open>resolve_alert\<close> returns \<open>True\<close>, the alert object has \<open>resolved\<close> set and
  \<open>resolved_time\<close> the time of the call, and the id is no longer in the active set, so
  a second \<open>resolve_alert\<close> and an \<open>acknowledge_alert\<close> after it fail without any
  change. \<open>acknowledge_alert\<close> never changes the active set, so an acknowledged alert
  is resolved in the same way as one that is not.
\<close>

theorem C8_resolve_acknowledge:
  "(map_of (active_alerts s) aid = None \<longrightarrow>
      resolve_alert now aid s = (False, s) \<and> acknowledge_alert now aid user s = (False, s))
   \<and> (map_of (active_alerts s) aid = Some ref \<longrightarrow>
        fst (resolve_alert now aid s) = True
      \<and> map_of (active_alerts (snd (resolve_alert now aid s))) aid = None
      \<and> (ref < length (alert_history s) \<longrightarrow>
            resolved (alert_history (snd (resolve_alert now aid s)) ! ref)
          \<and> resolved_time (alert_history (snd (resolve_alert now aid s)) ! ref) = Some now)
      \<and> resolve_alert now' aid (snd (resolve_alert now aid s))
           = (False, snd (resolve_alert now aid s))
      \<and> acknowledge_alert now' aid user (snd (resolve_alert now aid s))
           = (False, snd (resolve_alert now aid s))
      \<and> fst (resolve_alert now' aid (snd (acknowledge_alert now aid user s))) = True)
   \<and> active_alerts (snd (acknowledge_alert now aid user s)) = active_alerts s"
proof (intro conjI impI)
  assume "map_of (active_alerts s) aid = None"
  then show "resolve_alert now aid s = (False, s)" "acknowledge_alert now aid user s = (False, s)"
    by (simp_all add: resolve_alert_def acknowledge_alert_def)
next
  show same: "active_alerts (snd (acknowledge_alert now aid user s)) = active_alerts s"
    by (simp add: acknowledge_alert_def split: option.splits)
  assume a: "map_of (active_alerts s) aid = Some ref"
  then show "fst (resolve_alert now aid s) = True"
    by (simp add: resolve_alert_def)
  from a show gone: "map_of (active_alerts (snd (resolve_alert now aid s))) aid = None"
    by (simp add: resolve_alert_def map_of_dict_del)
  from gone show "resolve_alert now' aid (snd (resolve_alert now aid s))
      = (False, snd (resolve_alert now aid s))"
    by (simp add: resolve_alert_def)
  from gone show "acknowledge_alert now' aid user (snd (resolve_alert now aid s))
      = (False, snd (resolve_alert now aid s))"
    by (simp add: acknowledge_alert_def)
  from a same show "fst (resolve_alert now' aid (snd (acknowledge_alert now aid user s))) = True"
    by (simp add: resolve_alert_def)
  assume "ref < length (alert_history s)"
  with a show "resolved (alert_history (snd (resolve_alert now aid s)) ! ref)"
    "resolved_time (alert_history (snd (resolve_alert now aid s)) ! ref) = Some now"
    by (simp_all add: resolve_alert_def)
qed

lemma manager_with_one:
  "active_alerts (manager_with [example_alert ''TEMP_HIGH_0'' CRITICAL 0]) = [(''TEMP_HIGH_0'', 0)]"
  "alert_history (manager_with [example_alert ''TEMP_HIGH_0'' CRITICAL 0])
     = [example_alert ''TEMP_HIGH_0'' CRITICAL 0]"
  by (simp_all add: manager_with_def AlertManager_init_def example_alert_def)

text \<open>
  The theorem at a manager with the one active alert TEMP_HIGH_0: resolving the unknown
  id TEMP_HIGH_9 fails and changes nothing, resolving TEMP_HIGH_0 at time 5 succeeds, and
  resolving it again at time 6 fails.
\<close>

theorem C8_resolve_acknowledge_witness:
  "map_of (active_alerts (manager_with [example_alert ''TEMP_HIGH_0'' CRITICAL 0])) ''TEMP_HIGH_9'' = None
   \<and> resolve_alert 5 ''TEMP_HIGH_9'' (manager_with [example_alert ''TEMP_HIGH_0'' CRITICAL 0])
       = (False, manager_with [example_alert ''TEMP_HIGH_0'' CRITICAL 0])
   \<and> map_of (active_alerts (manager_with [example_alert ''TEMP_HIGH_0'' CRITICAL 0])) ''TEMP_HIGH_0''
       = Some 0
   \<and> 0 < length (alert_history (manager_with [example_alert ''TEMP_HIGH_0'' CRITICAL 0]))
   \<and> fst (resolve_alert 5 ''TEMP_HIGH_0'' (manager_with [example_alert ''TEMP_HIGH_0'' CRITICAL 0]))
       = True
   \<and> resolved_time (alert_history (snd (resolve_alert 5 ''TEMP_HIGH_0''
         (manager_with [example_alert ''TEMP_HIGH_0'' CRITICAL 0]))) ! 0) = Some 5
   \<and> fst (resolve_alert 6 ''TEMP_HIGH_0'' (snd (resolve_alert 5 ''TEMP_HIGH_0''
         (manager_with [example_alert ''TEMP_HIGH_0'' CRITICAL 0])))) = False"
proof -
  let ?s = "manager_with [example_alert ''TEMP_HIGH_0'' CRITICAL 0]"
  have n: "map_of (active_alerts ?s) ''TEMP_HIGH_9'' = None"
    by (simp add: manager_with_one)
  have k: "map_of (active_alerts ?s) ''TEMP_HIGH_0'' = Some 0"
    by (simp add: manager_with_one)
  have l: "0 < length (alert_history ?s)"
    by (simp add: manager_with_one)
  show ?thesis
    using n k l
      C8_resolve_acknowledge [where s = ?s and aid = "''TEMP_HIGH_9''" and now = 5]
      C8_resolve_acknowledge [where s = ?s and aid = "''TEMP_HIGH_0''" and now = 5 and ref = 0
        and now' = 6]
    by simp
qed

section \<open>The list of active alerts\<close>

lemma alert_before_key: "alert_before a b \<longleftrightarrow> alert_key b \<le> alert_key a"
  by (auto simp: alert_before_def alert_key_def less_eq_prod_def)

lemma mset_sorted_reverse: "mset (sorted_reverse k xs) = mset xs"
  by (simp add: sorted_reverse_def)

lemma set_sorted_reverse: "set (sorted_reverse k xs) = set xs"
  by (simp add: sorted_reverse_def)

lemma sorted_sorted_reverse: "sorted_wrt (\<lambda>a b. k b \<le> k a) (sorted_reverse k xs)"
proof -
  have "sorted (map k (sort_key k (rev xs)))"
    by (rule sorted_sort_key)
  then have "sorted_wrt (\<lambda>a b. k a \<le> k b) (sort_key k (rev xs))"
    by (simp add: sorted_map)
  then show ?thesis
    by (simp add: sorted_reverse_def sorted_wrt_rev)
qed

text \<open>
  C10. \<open>get_active_alerts\<close> returns the alerts of the active set, each as often as it
  is there, restricted to the priority of the filter when one is given; the result is in
  descending lexicographic order of (priority value, timestamp): of two alerts, the one
  of higher priority comes first, and of two of the same priority the one with the later
  (or the same) timestamp; with a filter, every alert returned has the priority of the
  filter.
\<close>

theorem C10_get_active_alerts:
  "mset (get_active_alerts s priority_filter)
     = mset (filter (\<lambda>a. case priority_filter of None \<Rightarrow> True | Some f \<Rightarrow> priority a = f)
               (active_objects s))
   \<and> sorted_wrt alert_before (get_active_alerts s priority_filter)
   \<and> (\<forall>f. priority_filter = Some f \<longrightarrow>
         (\<forall>a \<in> set (get_active_alerts s priority_filter). priority a = f))"
proof (intro conjI)
  show "mset (get_active_alerts s priority_filter)
     = mset (filter (\<lambda>a. case priority_filter of None \<Rightarrow> True | Some f \<Rightarrow> priority a = f)
               (active_objects s))"
    by (cases priority_filter) (simp_all add: get_active_alerts_def mset_sorted_reverse)
  have "sorted_wrt (\<lambda>a b. alert_key b \<le> alert_key a) (get_active_alerts s priority_filter)"
    by (simp add: get_active_alerts_def Let_def sorted_sorted_reverse)
  then show "sorted_wrt alert_before (get_active_alerts s priority_filter)"
    by (simp add: alert_before_key [abs_def])
  show "\<forall>f. priority_filter = Some f \<longrightarrow>
         (\<forall>a \<in> set (get_active_alerts s priority_filter). priority a = f)"
    by (auto simp: get_active_alerts_def set_sorted_reverse)
qed

lemma active_objects_three:
  "active_objects (manager_with
      [example_alert ''A'' HIGH 10, example_alert ''B'' CRITICAL 5, example_alert ''C'' HIGH 20])
   = [example_alert ''A'' HIGH 10, example_alert ''B'' CRITICAL 5, example_alert ''C'' HIGH 20]"
  by (simp add: active_objects_def manager_with_def AlertManager_init_def upt_rec)

text \<open>
  The theorem at three active alerts: A (HIGH, time 10), B (CRITICAL, time 5) and
  C (HIGH, time 20). With the filter HIGH the result is C, then A.
\<close>

theorem C10_get_active_alerts_witness:
  "get_active_alerts (manager_with
      [example_alert ''A'' HIGH 10, example_alert ''B'' CRITICAL 5, example_alert ''C'' HIGH 20])
      (Some HIGH)
     = [example_alert ''C'' HIGH 20, example_alert ''A'' HIGH 10]
   \<and> example_alert ''C'' HIGH 20 \<in> set (get_active_alerts (manager_with
      [example_alert ''A'' HIGH 10, example_alert ''B'' CRITICAL 5, example_alert ''C'' HIGH 20])
      (Some HIGH))
   \<and> priority (example_alert ''C'' HIGH 20) = HIGH
   \<and> alert_before (example_alert ''C'' HIGH 20) (example_alert ''A'' HIGH 10)"
proof -
  let ?s = "manager_with
      [example_alert ''A'' HIGH 10, example_alert ''B'' CRITICAL 5, example_alert ''C'' HIGH 20]"
  have p: "priority (example_alert aid q t) = q" for aid q t
    by (simp add: example_alert_def)
  have k: "alert_key (example_alert aid q t) = (priority_value q, t)" for aid q t
    by (simp add: example_alert_def alert_key_def)
  have r: "get_active_alerts ?s (Some HIGH) = [example_alert ''C'' HIGH 20, example_alert ''A'' HIGH 10]"
    by (simp add: get_active_alerts_def active_objects_three sorted_reverse_def p k
        less_eq_prod_def)
  show ?thesis
    using C10_get_active_alerts [of ?s "Some HIGH"] by (simp add: r)
qed

section \<open>Notification dispatch\<close>

text \<open>
  In the thread of the dispatcher \<open>create_task\<close> raises for every client: no send
  is scheduled and every client is removed. So every alert goes out on the webhook and on
  nothing else.
\<close>

lemma broadcast_alert_dispatcher:
  "broadcast_alert dispatcher_running_loop connected_clients alert = ([], [])"
  by (simp add: broadcast_alert_def dispatcher_running_loop_def create_task_def Let_def)

lemma process_alert_notification_webhook:
  "process_alert_notification connected_clients alert = ([Webhook], [])"
  by (simp add: process_alert_notification_def broadcast_alert_dispatcher Let_def)

text \<open>For the priorities LOW and MEDIUM this is the routing of the specification.\<close>

lemma process_alert_notification_others:
  "priority alert \<notin> {EMERGENCY, CRITICAL, HIGH} \<Longrightarrow>
   set (fst (process_alert_notification connected_clients alert)) = spec_channels (priority alert)"
  by (simp add: process_alert_notification_webhook spec_channels_def)

text \<open>
  C4. An alert of priority CRITICAL and an alert of priority HIGH, processed while two
  subscribers are connected. The routing of the claim sends the first on all channels
  (webhook, e-mail, SMS, live broadcast) and the second on webhook and e-mail. The
  dispatcher sends both on the webhook only: the e-mail and SMS calls of these branches
  are commented out, and the live broadcast schedules no send and drops both subscribers.
\<close>

theorem C4_critical_and_high_on_webhook_only:
  "process_alert_notification [1, 2] (example_alert ''TEMP_HIGH_0'' CRITICAL 0) = ([Webhook], [])
   \<and> spec_channels CRITICAL = {Webhook, Email, SMS, Broadcast}
   \<and> set (fst (process_alert_notification [1, 2] (example_alert ''TEMP_HIGH_0'' CRITICAL 0)))
        \<noteq> spec_channels CRITICAL
   \<and> process_alert_notification [1, 2] (example_alert ''PRESSURE_LOW_0'' HIGH 0) = ([Webhook], [])
   \<and> spec_channels HIGH = {Webhook, Email}
   \<and> set (fst (process_alert_notification [1, 2] (example_alert ''PRESSURE_LOW_0'' HIGH 0)))
        \<noteq> spec_channels HIGH"
  by (simp add: process_alert_notification_webhook spec_channels_def)

section \<open>The writers of the buffer\<close>

text \<open>
  Each step that appends to a point appends one sample whose timestamp is the clock
  reading of the step; the other steps leave the list of the point as it is.
\<close>

lemma samples_writer_step_other:
  "written_point w \<noteq> Some pid \<Longrightarrow> samples (writer_step w b) pid = samples b pid"
proof (cases w)
  case (Scan point inp)
  assume "written_point w \<noteq> Some pid"
  with Scan show ?thesis
    by (cases "snd inp") (simp_all add: scan_iteration_def samples_add_point)
next
  case (Packet inp)
  assume "written_point w \<noteq> Some pid"
  with Packet show ?thesis
    by (auto simp: send_to_monitoring_system_def protocol_to_monitoring_def samples_add_point
        Let_def)
qed

lemma samples_writer_step_same:
  assumes "written_point w = Some pid"
  shows "\<exists>d. timestamp d = clock_reading w \<and> writer_step w b = add_point pid d b"
proof (cases w)
  case (Scan point inp)
  with assms obtain v where v: "snd inp = Inr v" "mp_point_id point = pid"
    by (cases "snd inp") auto
  let ?d = "\<lparr>point_id = pid, timestamp = fst inp, val = v, quality = ''GOOD'',
             status = ''ONLINE''\<rparr>"
  have "timestamp ?d = clock_reading w \<and> writer_step w b = add_point pid ?d b"
    using Scan v by (simp add: scan_iteration_def)
  then show ?thesis by blast
next
  case (Packet inp)
  let ?d = "protocol_to_monitoring (fst inp) (snd inp)"
  have p: "point_id ?d = pid"
    using assms Packet by (simp add: protocol_to_monitoring_def)
  have "timestamp ?d = clock_reading w \<and> writer_step w b = add_point pid ?d b"
    using Packet p by (simp add: send_to_monitoring_system_def Let_def)
      (simp add: protocol_to_monitoring_def)
  then show ?thesis by blast
qed

lemma max_size_writer_step: "max_size (writer_step w b) = max_size b"
proof (cases w)
  case (Scan point inp)
  then show ?thesis
    by (cases "snd inp") (simp_all add: scan_iteration_def max_size_add_point)
next
  case (Packet inp)
  then show ?thesis
    by (simp add: send_to_monitoring_system_def max_size_add_point Let_def)
qed

lemma timestamps_run_writers:
  "length (samples b pid) \<le> max_size b \<Longrightarrow>
   map timestamp (samples (run_writers steps b) pid) =
     drop (length (samples b pid) + length (stamps_of pid steps) - max_size b)
       (map timestamp (samples b pid) @ stamps_of pid steps)"
proof (induction steps arbitrary: b)
  case Nil
  then show ?case by (simp add: run_writers_def stamps_of_def)
next
  case (Cons w steps)
  show ?case
  proof (cases "written_point w = Some pid")
    case False
    then have same: "samples (writer_step w b) pid = samples b pid"
      by (rule samples_writer_step_other)
    have len: "length (samples (writer_step w b) pid) \<le> max_size (writer_step w b)"
      using Cons.prems by (simp add: same max_size_writer_step)
    have st: "stamps_of pid (w # steps) = stamps_of pid steps"
      using False by (simp add: stamps_of_def)
    have "map timestamp (samples (run_writers (w # steps) b) pid)
        = map timestamp (samples (run_writers steps (writer_step w b)) pid)"
      by (simp add: run_writers_def)
    also have "\<dots> = drop (length (samples (writer_step w b) pid) + length (stamps_of pid steps)
                       - max_size (writer_step w b))
                    (map timestamp (samples (writer_step w b) pid) @ stamps_of pid steps)"
      by (rule Cons.IH [OF len])
    finally show ?thesis
      by (simp add: same st max_size_writer_step)
  next
    case True
    then obtain d where d: "timestamp d = clock_reading w" "writer_step w b = add_point pid d b"
      using samples_writer_step_same by blast
    define b' where "b' = add_point pid d b"
    define ts where "ts = map timestamp (samples b pid) @ [clock_reading w]"
    define k where "k = length (samples b pid) + 1 - max_size b"
    define n where "n = max_size b"
    have step: "samples b' pid = drop k (samples b pid @ [d])"
      unfolding b'_def k_def by (rule samples_add_point_drop [OF Cons.prems])
    have mts: "map timestamp (samples b pid @ [d]) = ts"
      by (simp add: ts_def d(1))
    have "map timestamp (samples b' pid) = drop k (map timestamp (samples b pid @ [d]))"
      by (simp only: step drop_map)
    then have tstep: "map timestamp (samples b' pid) = drop k ts"
      by (simp only: mts)
    have n': "max_size b' = n"
      by (simp add: b'_def n_def max_size_add_point)
    have lts: "length ts = length (samples b pid) + 1"
      by (simp add: ts_def)
    have k: "k \<le> length ts"
      by (simp add: k_def lts)
    have lb': "length (samples b' pid) = length ts - k"
      by (simp add: step lts)
    have len: "length (samples b' pid) \<le> max_size b'"
      using Cons.prems by (simp add: lb' n' lts k_def n_def)
    have st: "stamps_of pid (w # steps) = clock_reading w # stamps_of pid steps"
      using True by (simp add: stamps_of_def)
    have arith: "length ts - k + length (stamps_of pid steps) - n + k
        = length (samples b pid) + length (stamps_of pid (w # steps)) - n"
      using Cons.prems by (simp add: lts k_def n_def st)
    have "map timestamp (samples (run_writers (w # steps) b) pid)
        = map timestamp (samples (run_writers steps b') pid)"
      by (simp add: run_writers_def d(2) b'_def)
    also have "\<dots> = drop (length (samples b' pid) + length (stamps_of pid steps) - max_size b')
                    (map timestamp (samples b' pid) @ stamps_of pid steps)"
      by (rule Cons.IH [OF len])
    also have "\<dots> = drop (length ts - k + length (stamps_of pid steps) - n)
                    (drop k ts @ stamps_of pid steps)"
      by (simp only: tstep n' lb')
    also have "\<dots> = drop (length ts - k + length (stamps_of pid steps) - n + k)
                    (ts @ stamps_of pid steps)"
      by (rule drop_append_drop [OF k])
    also have "\<dots> = drop (length (samples b pid) + length (stamps_of pid (w # steps)) - n)
                    (ts @ stamps_of pid steps)"
      by (simp only: arith)
    finally show ?thesis
      by (simp add: ts_def st n_def)
  qed
qed

text \<open>
  C9, as the claim states it, fails. The timestamp of a sample is the reading of the
  wall clock (\<open>datetime.now()\<close>, local time) at the scan iteration, and nothing
  compares it with the sample before. Two scans of T001, the first at second 7200 and the
  next, after the clock was set back, at second 3601, leave the timestamps 7200 and 3601
  in the buffer, in this order.
\<close>

theorem C9_clock_set_back_counterexample:
  "map timestamp (samples (run_writers
       [Scan point_T001 (7200, Inr 90), Scan point_T001 (3601, Inr 91)]
       (DataBuffer_init 10000)) ''T001'') = [7200, 3601]
   \<and> \<not> sorted (map timestamp (samples (run_writers
       [Scan point_T001 (7200, Inr 90), Scan point_T001 (3601, Inr 91)]
       (DataBuffer_init 10000)) ''T001''))"
  by (simp add: run_writers_def scan_iteration_def point_T001_def add_point_def samples_def
      DataBuffer_init_def Let_def)

text \<open>
  C9, amended. The system starts with an empty buffer of capacity \<open>N\<close>; its states
  are reached by the steps of the writers (the scan tasks and the data pipeline), in any
  interleaving. In every state reached, the timestamps in the buffer of a point are, in
  buffer order, the clock readings of the steps that appended to the point, in the order
  of these steps, the last \<open>N\<close> of them when there were more. So they are
  non-decreasing whenever the clock readings of the successive steps that append to the
  point do not decrease.
\<close>

theorem C9_timestamps_are_clock_readings:
  "map timestamp (samples (run_writers steps (DataBuffer_init N)) pid)
     = drop (length (stamps_of pid steps) - N) (stamps_of pid steps)
   \<and> (sorted (stamps_of pid steps) \<longrightarrow>
        sorted (map timestamp (samples (run_writers steps (DataBuffer_init N)) pid)))"
proof -
  have bound: "length (samples (DataBuffer_init N) pid) \<le> max_size (DataBuffer_init N)"
    by (simp add: samples_init)
  have N: "max_size (DataBuffer_init N) = N"
    by (simp add: DataBuffer_init_def)
  have "map timestamp (samples (run_writers steps (DataBuffer_init N)) pid)
     = drop (length (samples (DataBuffer_init N) pid) + length (stamps_of pid steps)
              - max_size (DataBuffer_init N))
         (map timestamp (samples (DataBuffer_init N) pid) @ stamps_of pid steps)"
    by (rule timestamps_run_writers [OF bound])
  then have eq: "map timestamp (samples (run_writers steps (DataBuffer_init N)) pid)
     = drop (length (stamps_of pid steps) - N) (stamps_of pid steps)"
    by (simp add: samples_init N)
  show ?thesis
    unfolding eq by (simp add: sorted_wrt_drop)
qed

text \<open>
  The theorem at a run with T001 scanned at the seconds 1, 3 (a failed read) and 5, a
  packet of the pipeline for T001 at second 2, and a scan of another point at second 4.
\<close>

theorem C9_timestamps_are_clock_readings_witness:
  "sorted (stamps_of ''T001''
      [Scan point_T001 (1, Inr 90),
       Packet (2, \<lparr>device_id = Some ''T001'', payload_value = Some 91, payload_quality = None,
                  payload_status = None\<rparr>),
       Scan point_T001 (3, Inl IOError),
       Scan (point_T001\<lparr>mp_point_id := ''P001''\<rparr>) (4, Inr 40),
       Scan point_T001 (5, Inr 96)])
   \<and> map timestamp (samples (run_writers
      [Scan point_T001 (1, Inr 90),
       Packet (2, \<lparr>device_id = Some ''T001'', payload_value = Some 91, payload_quality = None,
                  payload_status = None\<rparr>),
       Scan point_T001 (3, Inl IOError),
       Scan (point_T001\<lparr>mp_point_id := ''P001''\<rparr>) (4, Inr 40),
       Scan point_T001 (5, Inr 96)]
      (DataBuffer_init 10000)) ''T001'') = [1, 2, 5]
   \<and> sorted (map timestamp (samples (run_writers
      [Scan point_T001 (1, Inr 90),
       Packet (2, \<lparr>device_id = Some ''T001'', payload_value = Some 91, payload_quality = None,
                  payload_status = None\<rparr>),
       Scan point_T001 (3, Inl IOError),
       Scan (point_T001\<lparr>mp_point_id := ''P001''\<rparr>) (4, Inr 40),
       Scan point_T001 (5, Inr 96)]
      (DataBuffer_init 10000)) ''T001''))"
proof -
  let ?steps = "[Scan point_T001 (1, Inr 90),
       Packet (2, \<lparr>device_id = Some ''T001'', payload_value = Some 91, payload_quality = None,
                  payload_status = None\<rparr>),
       Scan point_T001 (3, Inl IOError),
       Scan (point_T001\<lparr>mp_point_id := ''P001''\<rparr>) (4, Inr 40),
       Scan point_T001 (5, Inr 96)]"
  have st: "stamps_of ''T001'' ?steps = [1, 2, 5]"
    by (simp add: stamps_of_def point_T001_def)
  have h: "sorted (stamps_of ''T001'' ?steps)"
    by (simp add: st)
  show ?thesis
    using h C9_timestamps_are_clock_readings [of ?steps 10000 "''T001''"]
    by (simp add: st)
qed

section \<open>The scan loop\<close>







section \<open>Modbus framing\<close>

lemma crc_shift_bound:
  "0 \<le> c \<Longrightarrow> c < 65536 \<Longrightarrow> 0 \<le> crc_shift n c \<and> crc_shift n c < 65536"
proof (induction n arbitrary: c)
  case 0
  then show ?case by simp
next
  case (Suc n)
  have d0: "0 \<le> drop_bit 1 c" using Suc.prems by simp
  have d1: "drop_bit 1 c < 2 ^ 16" using Suc.prems by (simp add: drop_bit_eq_div)
  have x0: "0 \<le> drop_bit 1 c XOR 0xA001" using d0 by simp
  have x1: "drop_bit 1 c XOR 0xA001 < 2 ^ 16"
    by (rule XOR_upper [OF d0 d1]) simp
  show ?case
    using Suc.IH [of "drop_bit 1 c"] Suc.IH [of "drop_bit 1 c XOR 0xA001"] d0 d1 x0 x1
    by simp
qed

lemma uint_byte_bound: "0 \<le> uint (b :: byte) \<and> uint b < 256"
  using uint_bounded [where w = b] by simp

lemma split_16: "0 \<le> (v::int) \<Longrightarrow> v < 65536 \<Longrightarrow>
   0 \<le> v div 256 \<and> v div 256 < 256 \<and> 0 \<le> v mod 256 \<and> v mod 256 < 256
   \<and> v div 256 * 256 + v mod 256 = v"
  by auto

lemma two_elements: "length xs = 2 \<Longrightarrow> \<exists>a b. xs = [a, b]"
  by (auto simp: numeral_2_eq_2 length_Suc_conv)

lemma fold_crc_bound:
  "0 \<le> c \<Longrightarrow> c < 65536 \<Longrightarrow>
   0 \<le> fold (\<lambda>byte crc. crc_shift 8 (crc XOR uint byte)) (data :: byte list) c
   \<and> fold (\<lambda>byte crc. crc_shift 8 (crc XOR uint byte)) data c < 65536"
proof (induction data arbitrary: c)
  case Nil
  then show ?case by simp
next
  case (Cons b data)
  have b: "0 \<le> uint b" "uint b < 2 ^ 16"
    using uint_byte_bound [of b] by simp_all
  have c16: "c < 2 ^ 16" using Cons.prems by simp
  have x0: "0 \<le> c XOR uint b" using Cons.prems b by simp
  have x1: "c XOR uint b < 2 ^ 16"
    by (rule XOR_upper [OF Cons.prems(1) c16 b(2)])
  then have x1': "c XOR uint b < 65536" by simp
  have "0 \<le> crc_shift 8 (c XOR uint b) \<and> crc_shift 8 (c XOR uint b) < 65536"
    by (rule crc_shift_bound [OF x0 x1'])
  then show ?case
    using Cons.IH [of "crc_shift 8 (c XOR uint b)"] by simp
qed

lemma calculate_crc_bound: "0 \<le> calculate_crc data \<and> calculate_crc data < 65536"
  unfolding calculate_crc_def by (rule fold_crc_bound) simp_all

lemma calculate_crc_check_value:
  "calculate_crc [0x31, 0x32, 0x33, 0x34, 0x35, 0x36, 0x37, 0x38, 0x39] = 0x4B37"
  by code_simp

lemma uint_byte_of_int: "0 \<le> v \<Longrightarrow> v < 256 \<Longrightarrow> uint (word_of_int v :: byte) = v"
  by (simp add: uint_word_of_int take_bit_eq_mod)

lemma unpack_le_crc_bytes: "unpack_le_H (crc_bytes payload) = Inr (calculate_crc payload)"
proof -
  have b: "0 \<le> calculate_crc payload" "calculate_crc payload < 65536"
    using calculate_crc_bound [of payload] by simp_all
  have hi: "uint (word_of_int (calculate_crc payload div 256) :: byte) = calculate_crc payload div 256"
    using split_16 [OF b] by (intro uint_byte_of_int) simp_all
  have lo: "uint (word_of_int (calculate_crc payload mod 256) :: byte) = calculate_crc payload mod 256"
    using split_16 [OF b] by (intro uint_byte_of_int) simp_all
  show ?thesis
    by (simp add: unpack_le_H_def crc_bytes_def hi lo)
qed

lemma pack_le_crc: "pack_le_H (calculate_crc payload) = Inr (crc_bytes payload)"
  using calculate_crc_bound [of payload] by (simp add: pack_le_H_def crc_bytes_def)

lemma uint_reg_bound: "0 \<le> uint (r :: 16 word) \<and> uint r < 65536"
  using uint_bounded [where w = r] by simp

lemma unpack_be_reg:
  "unpack_be_H [word_of_int (uint (r :: 16 word) div 256), word_of_int (uint r mod 256)] = Inr (uint r)"
proof -
  have b: "0 \<le> uint r" "uint r < 65536"
    using uint_reg_bound [of r] by simp_all
  have hi: "uint (word_of_int (uint r div 256) :: byte) = uint r div 256"
    using split_16 [OF b] by (intro uint_byte_of_int) simp_all
  have lo: "uint (word_of_int (uint r mod 256) :: byte) = uint r mod 256"
    using split_16 [OF b] by (intro uint_byte_of_int) simp_all
  show ?thesis
    by (simp add: unpack_be_H_def hi lo)
qed

lemma unpack_register_bytes: "unpack_registers (register_bytes regs) = Inr (map uint regs)"
proof (induction regs)
  case Nil
  then show ?case by (simp add: register_bytes_def)
next
  case (Cons r regs)
  have "register_bytes (r # regs)
          = word_of_int (uint r div 256) # word_of_int (uint r mod 256) # register_bytes regs"
    by (simp add: register_bytes_def)
  then show ?case
    using Cons.IH by (simp add: unpack_be_reg)
qed

lemma length_register_bytes: "length (register_bytes regs) = 2 * length regs"
  by (induction regs) (simp_all add: register_bytes_def)

lemma unat_byte_count:
  "length regs \<le> 127 \<Longrightarrow> unat (word_of_int (2 * int (length regs)) :: byte) = 2 * length regs"
proof -
  assume "length regs \<le> 127"
  then have "uint (word_of_int (2 * int (length regs)) :: byte) = 2 * int (length regs)"
    by (intro uint_byte_of_int) auto
  then show ?thesis
    by (simp add: unat_eq_nat_uint)
qed

lemma input_response_bad_crc:
  assumes "unpack_le_H (drop (length response - 2) response)
             \<noteq> Inr (calculate_crc (take (length response - 2) response))"
  shows "input_response_values response = Inr None"
proof (cases "length response \<ge> 5")
  case False
  then show ?thesis by (simp add: input_response_values_def)
next
  case True
  then have "length (drop (length response - 2) response) = 2" by simp
  then obtain lo hi where lh: "drop (length response - 2) response = [lo, hi]"
    using two_elements by blast
  with assms have "uint hi * 256 + uint lo \<noteq> calculate_crc (take (length response - 2) response)"
    by (simp add: unpack_le_H_def)
  with True lh show ?thesis
    by (simp add: input_response_values_def unpack_le_H_def Let_def)
qed

lemma input_response_rtu:
  assumes "length regs \<le> 127"
  shows "input_response_values (rtu_response unit regs) = Inr (Some (map uint regs))"
proof -
  let ?p = "rtu_payload unit regs"
  have lp: "length ?p = 3 + 2 * length regs"
    by (simp add: rtu_payload_def length_register_bytes)
  have lc: "length (crc_bytes ?p) = 2"
    by (simp add: crc_bytes_def)
  have len: "length (rtu_response unit regs) = 5 + 2 * length regs"
    by (simp add: rtu_response_def lp lc)
  have l2: "length (rtu_response unit regs) - 2 = length ?p"
    by (simp add: len lp)
  have ge5: "5 \<le> length (rtu_response unit regs)"
    by (simp add: len)
  have tk: "take (length (rtu_response unit regs) - 2) (rtu_response unit regs) = ?p"
    unfolding l2 by (simp add: rtu_response_def)
  have dr: "drop (length (rtu_response unit regs) - 2) (rtu_response unit regs) = crc_bytes ?p"
    unfolding l2 by (simp add: rtu_response_def)
  have shape: "rtu_response unit regs
      = unit # 4 # word_of_int (2 * int (length regs)) # (register_bytes regs @ crc_bytes ?p)"
    by (simp add: rtu_response_def rtu_payload_def)
  have n1: "rtu_response unit regs ! 1 = 4"
    by (simp add: shape)
  have n2: "rtu_response unit regs ! 2 = word_of_int (2 * int (length regs))"
    by (simp add: shape)
  have d3: "take (2 * length regs) (drop 3 (rtu_response unit regs)) = register_bytes regs"
    by (simp add: shape length_register_bytes)
  show ?thesis
    unfolding input_response_values_def
    by (simp only: ge5 tk dr unpack_le_crc_bytes n1 n2 unat_byte_count [OF assms] d3
        unpack_register_bytes Let_def if_True sum.case simp_thms)
qed




lemma read_input_request_bytes:
  assumes "0 \<le> unit" "unit \<le> 255" "0 \<le> address" "address \<le> 65535" "0 \<le> cnt" "cnt \<le> 65535"
  shows "read_input_request unit address cnt =
     Inr ([word_of_int unit, 4, word_of_int (address div 256), word_of_int (address mod 256),
           word_of_int (cnt div 256), word_of_int (cnt mod 256)]
          @ crc_bytes [word_of_int unit, 4, word_of_int (address div 256),
               word_of_int (address mod 256), word_of_int (cnt div 256), word_of_int (cnt mod 256)])"
  using assms by (simp add: read_input_request_def pack_be_def pack_le_crc)

lemma length_rtu_response: "length (rtu_response unit regs) = 5 + 2 * length regs"
  by (simp add: rtu_response_def rtu_payload_def crc_bytes_def length_register_bytes)

text \<open>
  C6. \<open>calculate_crc\<close> is the CRC-16 of Modbus (register \<open>0xFFFF\<close> at the start,
  polynomial \<open>0xA001\<close>, each byte shifted out low bit first): on the ASCII digits
  1 to 9 it gives the check value \<open>0x4B37\<close> of that CRC. A response whose last two
  bytes, read low byte first, are not the CRC of the bytes before them gives no values:
  \<open>input_response_values\<close> is \<open>None\<close>, and so is the result of
  \<open>read_input_registers\<close> when the port delivers that response. The request is
  sent with the CRC of its six bytes appended, low byte first. And for every unit and up
  to 127 registers (the byte count is one byte), the response of a device that serves
  the registers, which ends with the CRC of its payload, is decoded to exactly these
  registers.
\<close>

theorem C6_rtu_crc:
  "calculate_crc [0x31, 0x32, 0x33, 0x34, 0x35, 0x36, 0x37, 0x38, 0x39] = 0x4B37
   \<and> (unpack_le_H (drop (length response - 2) response)
          \<noteq> Inr (calculate_crc (take (length response - 2) response)) \<longrightarrow>
        input_response_values response = Inr None
        \<and> (serial_port st = answering response # rest \<longrightarrow> length response \<le> 1024 \<longrightarrow>
             fst (read_input_registers address cnt st) = None))
   \<and> (0 \<le> u \<and> u \<le> 255 \<and> 0 \<le> address \<and> address \<le> 65535 \<and> 0 \<le> cnt \<and> cnt \<le> 65535 \<longrightarrow>
        read_input_request u address cnt =
          Inr ([word_of_int u, 4, word_of_int (address div 256), word_of_int (address mod 256),
                word_of_int (cnt div 256), word_of_int (cnt mod 256)]
               @ crc_bytes [word_of_int u, 4, word_of_int (address div 256),
                    word_of_int (address mod 256), word_of_int (cnt div 256),
                    word_of_int (cnt mod 256)]))
   \<and> unpack_le_H (crc_bytes payload) = Inr (calculate_crc payload)
   \<and> (length regs \<le> 127 \<longrightarrow>
        input_response_values (rtu_response unit regs) = Inr (Some (map uint regs))
        \<and> (0 \<le> unit_id (rtu_config st') \<and> unit_id (rtu_config st') \<le> 255
             \<and> 0 \<le> address \<and> address \<le> 65535 \<and> 0 \<le> cnt \<and> cnt \<le> 65535 \<longrightarrow>
             serial_port st' = answering (rtu_response unit regs) # rest' \<longrightarrow>
             fst (read_input_registers address cnt st') = Some (map uint regs)))"
proof (intro conjI impI)
  show "calculate_crc [0x31, 0x32, 0x33, 0x34, 0x35, 0x36, 0x37, 0x38, 0x39] = 0x4B37"
    by (rule calculate_crc_check_value)
  show "unpack_le_H (crc_bytes payload) = Inr (calculate_crc payload)"
    by (rule unpack_le_crc_bytes)
next
  assume bad: "unpack_le_H (drop (length response - 2) response)
          \<noteq> Inr (calculate_crc (take (length response - 2) response))"
  then show none: "input_response_values response = Inr None"
    by (rule input_response_bad_crc)
  assume "serial_port st = answering response # rest" "length response \<le> 1024"
  then show "fst (read_input_registers address cnt st) = None"
    by (simp add: read_input_registers_def answering_def none Let_def split: sum.splits)
next
  assume "0 \<le> u \<and> u \<le> 255 \<and> 0 \<le> address \<and> address \<le> 65535 \<and> 0 \<le> cnt \<and> cnt \<le> 65535"
  then show "read_input_request u address cnt =
          Inr ([word_of_int u, 4, word_of_int (address div 256), word_of_int (address mod 256),
                word_of_int (cnt div 256), word_of_int (cnt mod 256)]
               @ crc_bytes [word_of_int u, 4, word_of_int (address div 256),
                    word_of_int (address mod 256), word_of_int (cnt div 256),
                    word_of_int (cnt mod 256)])"
    by (intro read_input_request_bytes) simp_all
next
  assume n: "length regs \<le> 127"
  then show ok: "input_response_values (rtu_response unit regs) = Inr (Some (map uint regs))"
    by (rule input_response_rtu)
  assume v: "0 \<le> unit_id (rtu_config st') \<and> unit_id (rtu_config st') \<le> 255
             \<and> 0 \<le> address \<and> address \<le> 65535 \<and> 0 \<le> cnt \<and> cnt \<le> 65535"
    and p: "serial_port st' = answering (rtu_response unit regs) # rest'"
  have req: "\<exists>frame. read_input_request (unit_id (rtu_config st')) address cnt = Inr frame"
    using v read_input_request_bytes [of "unit_id (rtu_config st')" address cnt] by simp
  have short: "take 1024 (rtu_response unit regs) = rtu_response unit regs"
    using n by (simp add: length_rtu_response)
  from req obtain frame where "read_input_request (unit_id (rtu_config st')) address cnt = Inr frame"
    by blast
  then show "fst (read_input_registers address cnt st') = Some (map uint regs)"
    by (simp add: read_input_registers_def p answering_def short ok Let_def)
qed

lemma calculate_crc_example: "calculate_crc [1, 4, 2, 0, 96] = 6329"
  by code_simp

lemma rtu_response_example: "rtu_response 1 [96] = [1, 4, 2, 0, 96, 185, 24]"
  by (simp add: rtu_response_def rtu_payload_def register_bytes_def crc_bytes_def
      calculate_crc_example)

text \<open>
  The theorem at the response of unit 1 with the one register 96, whose CRC bytes
  are 185 and 24, and at the same response with the CRC bytes replaced by zeros.
\<close>

theorem C6_rtu_crc_witness:
  "unpack_le_H (drop (length [1, 4, 2, 0, 96, 0, 0 :: byte] - 2) [1, 4, 2, 0, 96, 0, 0])
     \<noteq> Inr (calculate_crc (take (length [1, 4, 2, 0, 96, 0, 0 :: byte] - 2) [1, 4, 2, 0, 96, 0, 0]))
   \<and> serial_port (rtu_connected [answering [1, 4, 2, 0, 96, 0, 0]])
       = answering [1, 4, 2, 0, 96, 0, 0] # []
   \<and> length [1, 4, 2, 0, 96, 0, 0 :: byte] \<le> 1024
   \<and> fst (read_input_registers 0 1 (rtu_connected [answering [1, 4, 2, 0, 96, 0, 0]])) = None
   \<and> length [96 :: 16 word] \<le> 127
   \<and> 0 \<le> unit_id (rtu_config (rtu_connected [answering (rtu_response 1 [96])]))
   \<and> unit_id (rtu_config (rtu_connected [answering (rtu_response 1 [96])])) \<le> 255
   \<and> serial_port (rtu_connected [answering (rtu_response 1 [96])])
       = answering (rtu_response 1 [96]) # []
   \<and> rtu_response 1 [96] = [1, 4, 2, 0, 96, 185, 24]
   \<and> fst (read_input_registers 0 1 (rtu_connected [answering (rtu_response 1 [96])])) = Some [96]"
proof -
  let ?bad = "[1, 4, 2, 0, 96, 0, 0] :: byte list"
  have h1: "unpack_le_H (drop (length ?bad - 2) ?bad)
     \<noteq> Inr (calculate_crc (take (length ?bad - 2) ?bad))"
    by (simp add: unpack_le_H_def calculate_crc_example)
  have h2: "serial_port (rtu_connected [answering ?bad]) = answering ?bad # []"
    by (simp add: rtu_connected_def)
  have h3: "length ?bad \<le> 1024"
    by simp
  have h4: "length [96 :: 16 word] \<le> 127"
    by simp
  have h5: "0 \<le> unit_id (rtu_config (rtu_connected [answering (rtu_response 1 [96])]))
      \<and> unit_id (rtu_config (rtu_connected [answering (rtu_response 1 [96])])) \<le> 255"
    by (simp add: rtu_connected_def example_config_def)
  have h6: "serial_port (rtu_connected [answering (rtu_response 1 [96])])
       = answering (rtu_response 1 [96]) # []"
    by (simp add: rtu_connected_def)
  show ?thesis
    using h1 h2 h3 h4 h5 h6 rtu_response_example
      C6_rtu_crc [where response = ?bad and st = "rtu_connected [answering ?bad]" and rest = "[]"
        and address = 0 and cnt = 1 and regs = "[96]" and unit = 1
        and st' = "rtu_connected [answering (rtu_response 1 [96])]" and rest' = "[]"]
    by simp
qed



end
